theory Spec2Isabelle
  imports Complex_Main "HOL-Library.Word"
begin

unbundle bit_operations_syntax

section \<open>Python values and library functions\<close>

text \<open>
  Python ints that hold bits, bases, indices, bytes and code points are never negative in
  this program and are modelled as \<open>nat\<close>; a \<^verbatim>\<open>bytes\<close> object is a list of naturals below
  256. A float that is the quotient of two small ints (an error rate, the CHSH value) is
  modelled as the exact rational: the constants it is compared with (0.25, 0.359375, 0.5, 2.5)
  are binary fractions, and the quotients of numbers below 2^53 that are not equal to one of
  them differ from it by far more than the rounding error of one division.
  An exception is a value of \<open>py_error\<close> on the left of a sum.
\<close>

datatype py_error =
    ValueError | IndexError | ZeroDivisionError | BinasciiError
  | UnicodeDecodeError | UnicodeEncodeError | SimulatorError

text \<open>
  Random draws are inputs: a function that draws takes the raw random naturals it consumes
  and maps them into the range of the call. \<^verbatim>\<open>np.random.randint(n)\<close> is in \<open>{0..<n}\<close>,
  \<^verbatim>\<open>random.randint(lo, hi)\<close> is in \<open>{lo..hi}\<close>.
\<close>

definition np_random_randint :: "nat \<Rightarrow> nat \<Rightarrow> nat" where
  "np_random_randint n r = r mod n"

definition random_randint :: "nat \<Rightarrow> nat \<Rightarrow> nat \<Rightarrow> nat" where
  "random_randint lo hi r = lo + r mod (hi - lo + 1)"

text \<open>
  \<^verbatim>\<open>np.random.choice(a, n, replace=False)\<close>: \<open>n\<close> distinct elements of \<open>range(a)\<close>. It
  raises ValueError when the population is empty and a sample is asked for, and when the
  sample is larger than the population. The draw removes one element of the pool per random
  number.
\<close>

fun draw_without_replacement :: "nat list \<Rightarrow> nat \<Rightarrow> nat list \<Rightarrow> nat list" where
  "draw_without_replacement pool 0 rs = []"
| "draw_without_replacement [] (Suc k) rs = []"
| "draw_without_replacement (p # pool) (Suc k) rs =
     (let j = (case rs of [] \<Rightarrow> 0 | r # _ \<Rightarrow> r mod length (p # pool))
      in (p # pool) ! j #
         draw_without_replacement (take j (p # pool) @ drop (Suc j) (p # pool)) k (tl rs))"

definition np_random_choice :: "nat \<Rightarrow> nat \<Rightarrow> nat list \<Rightarrow> py_error + nat list" where
  "np_random_choice a n rs =
     (if a = 0 \<and> n \<noteq> 0 then Inl ValueError
      else if a < n then Inl ValueError
      else Inr (draw_without_replacement [0..<a] n rs))"

text \<open>\<^verbatim>\<open>bytes(xs)\<close> raises ValueError unless every element is in \<open>range(256)\<close>.\<close>

definition py_bytes :: "nat list \<Rightarrow> py_error + nat list" where
  "py_bytes xs = (if list_all (\<lambda>x. x < 256) xs then Inr xs else Inl ValueError)"

text \<open>The slice \<^verbatim>\<open>xs[:n]\<close>; a negative \<open>n\<close> counts from the end.\<close>

definition py_slice_to :: "int \<Rightarrow> 'a list \<Rightarrow> 'a list" where
  "py_slice_to n xs =
     (if 0 \<le> n then take (nat n) xs else take (length xs - nat (- n)) xs)"

text \<open>
  \<^verbatim>\<open>[xs[i:i+n] for i in range(0, len(xs), n)]\<close>: consecutive groups of \<open>n\<close> elements, the
  last one shorter when the length is not a multiple of \<open>n\<close>.
\<close>

fun chunks :: "nat \<Rightarrow> 'a list \<Rightarrow> 'a list list" where
  "chunks n [] = []"
| "chunks n (x # xs) =
     (if n = 0 then [] else take n (x # xs) # chunks n (drop n (x # xs)))"

subsection \<open>hashlib.sha256\<close>

text \<open>
  The hash of FIPS 180-4 on byte lists: padding to a multiple of 64 bytes, the message
  schedule of 64 words per block, 64 rounds, and the digest as 32 bytes.
\<close>

type_synonym sha_state =
  "32 word \<times> 32 word \<times> 32 word \<times> 32 word \<times> 32 word \<times> 32 word \<times> 32 word \<times> 32 word"

text \<open>
  The round constants are the first 32 bits of the fractional parts of the cube roots of the
  first 64 primes, and the initial state those of the square roots of the first 8 primes;
  both are written in decimal.
\<close>

definition sha256_K :: "32 word list" where
  "sha256_K =
    [1116352408, 1899447441, 3049323471, 3921009573, 961987163, 1508970993, 2453635748, 2870763221,
     3624381080, 310598401, 607225278, 1426881987, 1925078388, 2162078206, 2614888103, 3248222580,
     3835390401, 4022224774, 264347078, 604807628, 770255983, 1249150122, 1555081692, 1996064986,
     2554220882, 2821834349, 2952996808, 3210313671, 3336571891, 3584528711, 113926993, 338241895,
     666307205, 773529912, 1294757372, 1396182291, 1695183700, 1986661051, 2177026350, 2456956037,
     2730485921, 2820302411, 3259730800, 3345764771, 3516065817, 3600352804, 4094571909, 275423344,
     430227734, 506948616, 659060556, 883997877, 958139571, 1322822218, 1537002063, 1747873779,
     1955562222, 2024104815, 2227730452, 2361852424, 2428436474, 2756734187, 3204031479, 3329325298]"

definition sha256_H0 :: sha_state where
  "sha256_H0 =
    (1779033703, 3144134277, 1013904242, 2773480762, 1359893119, 2600822924, 528734635, 1541459225)"

definition sha256_pad :: "nat list \<Rightarrow> nat list" where
  "sha256_pad msg =
     (let l = length msg;
          zeros = (119 - l mod 64) mod 64;
          bitlen = 8 * l
      in msg @ [0x80] @ replicate zeros 0 @
         map (\<lambda>i. (bitlen div 2 ^ (8 * (7 - i))) mod 256) [0..<8])"

definition be_word :: "nat list \<Rightarrow> 32 word" where
  "be_word bs = of_nat (foldl (\<lambda>acc b. acc * 256 + b) 0 bs)"

definition small_sigma0 :: "32 word \<Rightarrow> 32 word" where
  "small_sigma0 x = word_rotr 7 x XOR word_rotr 18 x XOR drop_bit 3 x"

definition small_sigma1 :: "32 word \<Rightarrow> 32 word" where
  "small_sigma1 x = word_rotr 17 x XOR word_rotr 19 x XOR drop_bit 10 x"

definition big_sigma0 :: "32 word \<Rightarrow> 32 word" where
  "big_sigma0 x = word_rotr 2 x XOR word_rotr 13 x XOR word_rotr 22 x"

definition big_sigma1 :: "32 word \<Rightarrow> 32 word" where
  "big_sigma1 x = word_rotr 6 x XOR word_rotr 11 x XOR word_rotr 25 x"

fun sha256_schedule :: "nat \<Rightarrow> 32 word list \<Rightarrow> 32 word list" where
  "sha256_schedule 0 w = w"
| "sha256_schedule (Suc n) w =
     (let t = length w
      in sha256_schedule n
           (w @ [small_sigma1 (w ! (t - 2)) + w ! (t - 7) + small_sigma0 (w ! (t - 15)) + w ! (t - 16)]))"

fun sha256_round :: "32 word \<times> 32 word \<Rightarrow> sha_state \<Rightarrow> sha_state" where
  "sha256_round (k, w) (a, b, c, d, e, f, g, h) =
     (let t1 = h + big_sigma1 e + ((e AND f) XOR (NOT e AND g)) + k + w;
          t2 = big_sigma0 a + ((a AND b) XOR (a AND c) XOR (b AND c))
      in (t1 + t2, a, b, c, d + t1, e, f, g))"

fun sha256_add :: "sha_state \<Rightarrow> sha_state \<Rightarrow> sha_state" where
  "sha256_add (a, b, c, d, e, f, g, h) (a', b', c', d', e', f', g', h') =
     (a + a', b + b', c + c', d + d', e + e', f + f', g + g', h + h')"

definition sha256_compress :: "nat list \<Rightarrow> sha_state \<Rightarrow> sha_state" where
  "sha256_compress block st =
     (let w = sha256_schedule 48 (map be_word (chunks 4 block))
      in sha256_add st (fold sha256_round (zip sha256_K w) st))"

definition word_bytes :: "32 word \<Rightarrow> nat list" where
  "word_bytes x = map (\<lambda>i. unat (drop_bit (8 * (3 - i)) x AND 0xff)) [0..<4]"

fun sha256_digest :: "sha_state \<Rightarrow> nat list" where
  "sha256_digest (a, b, c, d, e, f, g, h) =
     word_bytes a @ word_bytes b @ word_bytes c @ word_bytes d @
     word_bytes e @ word_bytes f @ word_bytes g @ word_bytes h"

definition sha256 :: "nat list \<Rightarrow> nat list" where
  "sha256 msg = sha256_digest (fold sha256_compress (chunks 64 (sha256_pad msg)) sha256_H0)"


subsection \<open>The UTF-8 codec of str.encode and bytes.decode\<close>

text \<open>
  A Python \<^verbatim>\<open>str\<close> is the list of its code points. \<^verbatim>\<open>s.encode()\<close> raises
  UnicodeEncodeError on a surrogate; \<^verbatim>\<open>b.decode()\<close> raises UnicodeDecodeError on a byte
  sequence that is not well-formed UTF-8 (an overlong form, a surrogate, a value above
  U+10FFFF, a stray or missing continuation byte).
\<close>

definition utf8_encode_cp :: "nat \<Rightarrow> py_error + nat list" where
  "utf8_encode_cp cp =
     (if cp < 0x80 then Inr [cp]
      else if cp < 0x800 then Inr [0xC0 + cp div 64, 0x80 + cp mod 64]
      else if 0xD800 \<le> cp \<and> cp \<le> 0xDFFF then Inl UnicodeEncodeError
      else if cp < 0x10000
        then Inr [0xE0 + cp div 4096, 0x80 + cp div 64 mod 64, 0x80 + cp mod 64]
      else if cp < 0x110000
        then Inr [0xF0 + cp div 262144, 0x80 + cp div 4096 mod 64,
                  0x80 + cp div 64 mod 64, 0x80 + cp mod 64]
      else Inl UnicodeEncodeError)"

fun str_encode :: "nat list \<Rightarrow> py_error + nat list" where
  "str_encode [] = Inr []"
| "str_encode (cp # s) =
     (case utf8_encode_cp cp of
        Inl e \<Rightarrow> Inl e
      | Inr bs \<Rightarrow> (case str_encode s of Inl e \<Rightarrow> Inl e | Inr rest \<Rightarrow> Inr (bs @ rest)))"

definition is_continuation :: "nat \<Rightarrow> bool" where
  "is_continuation b = (0x80 \<le> b \<and> b \<le> 0xBF)"

definition decoded_cons :: "nat \<Rightarrow> py_error + nat list \<Rightarrow> py_error + nat list" where
  "decoded_cons cp r = (case r of Inl e \<Rightarrow> Inl e | Inr s \<Rightarrow> Inr (cp # s))"

fun bytes_decode :: "nat list \<Rightarrow> py_error + nat list" where
  "bytes_decode [] = Inr []"
| "bytes_decode (b # bs) =
     (if b < 0x80 then decoded_cons b (bytes_decode bs)
      else if 0xC2 \<le> b \<and> b \<le> 0xDF then
        (case bs of
           c1 # r \<Rightarrow>
             if is_continuation c1
             then decoded_cons ((b - 0xC0) * 64 + (c1 - 0x80)) (bytes_decode r)
             else Inl UnicodeDecodeError
         | _ \<Rightarrow> Inl UnicodeDecodeError)
      else if 0xE0 \<le> b \<and> b \<le> 0xEF then
        (case bs of
           c1 # c2 # r \<Rightarrow>
             if (if b = 0xE0 then 0xA0 else 0x80) \<le> c1 \<and>
                c1 \<le> (if b = 0xED then 0x9F else 0xBF) \<and> is_continuation c2
             then decoded_cons ((b - 0xE0) * 4096 + (c1 - 0x80) * 64 + (c2 - 0x80))
                    (bytes_decode r)
             else Inl UnicodeDecodeError
         | _ \<Rightarrow> Inl UnicodeDecodeError)
      else if 0xF0 \<le> b \<and> b \<le> 0xF4 then
        (case bs of
           c1 # c2 # c3 # r \<Rightarrow>
             if (if b = 0xF0 then 0x90 else 0x80) \<le> c1 \<and>
                c1 \<le> (if b = 0xF4 then 0x8F else 0xBF) \<and>
                is_continuation c2 \<and> is_continuation c3
             then decoded_cons
                    ((b - 0xF0) * 262144 + (c1 - 0x80) * 4096 + (c2 - 0x80) * 64 + (c3 - 0x80))
                    (bytes_decode r)
             else Inl UnicodeDecodeError
         | _ \<Rightarrow> Inl UnicodeDecodeError)
      else Inl UnicodeDecodeError)"

subsection \<open>base64.b64encode and base64.b64decode\<close>

text \<open>
  The encoder of RFC 4648 with padding. The decoder is the one of
  \<^verbatim>\<open>binascii.a2b_base64\<close> without strict mode: characters outside the alphabet are
  skipped, a complete run of padding ends the input, and leftover characters of an
  incomplete quadruple raise \<^verbatim>\<open>binascii.Error\<close>. \<^verbatim>\<open>b64decode\<close> of a \<^verbatim>\<open>str\<close> first
  requires it to be ASCII and raises ValueError otherwise.
\<close>

definition b64_alphabet :: string where
  "b64_alphabet = ''ABCDEFGHIJKLMNOPQRSTUVWXYZabcdefghijklmnopqrstuvwxyz0123456789+/''"

definition b64_pad :: nat where
  "b64_pad = 61"

definition b2a :: "nat \<Rightarrow> nat" where
  "b2a n = of_char (b64_alphabet ! n)"

fun index_of :: "'a \<Rightarrow> 'a list \<Rightarrow> nat option" where
  "index_of x [] = None"
| "index_of x (y # ys) = (if x = y then Some 0 else map_option Suc (index_of x ys))"

definition a2b :: "nat \<Rightarrow> nat option" where
  "a2b c = index_of c (map of_char b64_alphabet)"

fun b64encode :: "nat list \<Rightarrow> nat list" where
  "b64encode [] = []"
| "b64encode [a] = [b2a (a div 4), b2a (a mod 4 * 16), b64_pad, b64_pad]"
| "b64encode [a, b] =
     [b2a (a div 4), b2a (a mod 4 * 16 + b div 16), b2a (b mod 16 * 4), b64_pad]"
| "b64encode (a # b # c # r) =
     [b2a (a div 4), b2a (a mod 4 * 16 + b div 16), b2a (b mod 16 * 4 + c div 64),
      b2a (c mod 64)] @ b64encode r"

fun a2b_base64 :: "nat list \<Rightarrow> nat \<Rightarrow> nat \<Rightarrow> nat \<Rightarrow> nat list \<Rightarrow> py_error + nat list" where
  "a2b_base64 [] quad_pos leftchar pads out =
     (if quad_pos = 0 then Inr out else Inl BinasciiError)"
| "a2b_base64 (ch # rest) quad_pos leftchar pads out =
     (if ch = b64_pad then
        (if 2 \<le> quad_pos \<and> 4 \<le> quad_pos + (pads + 1) then Inr out
         else a2b_base64 rest quad_pos leftchar (if 2 \<le> quad_pos then pads + 1 else pads) out)
      else
        (case a2b ch of
           None \<Rightarrow> a2b_base64 rest quad_pos leftchar pads out
         | Some v \<Rightarrow>
             if quad_pos = 0 then a2b_base64 rest 1 v 0 out
             else if quad_pos = 1
               then a2b_base64 rest 2 (v mod 16) 0 (out @ [leftchar * 4 + v div 16])
             else if quad_pos = 2
               then a2b_base64 rest 3 (v mod 4) 0 (out @ [leftchar * 16 + v div 4])
             else a2b_base64 rest 0 0 0 (out @ [leftchar * 64 + v])))"

definition b64decode :: "nat list \<Rightarrow> py_error + nat list" where
  "b64decode s =
     (if list_all (\<lambda>c. c < 128) s then a2b_base64 s 0 0 0 [] else Inl ValueError)"

subsection \<open>Crypto.Util.Padding and the DES cipher object in ECB mode\<close>

text \<open>
  \<open>pad\<close> and \<open>unpad\<close> are the PKCS#7 functions of the library. The block primitive of DES
  is a parameter: \<open>E key block\<close> encrypts and \<open>D key block\<close> decrypts one 8-byte block.
  \<^verbatim>\<open>DES.new(key, DES.MODE_ECB)\<close> raises ValueError unless the key has 8 bytes, and
  \<^verbatim>\<open>encrypt\<close> and \<^verbatim>\<open>decrypt\<close> raise ValueError unless the data is a whole number of
  blocks; each block is processed on its own.
\<close>

definition pad :: "nat list \<Rightarrow> nat \<Rightarrow> nat list" where
  "pad data_to_pad block_size =
     (let padding_len = block_size - length data_to_pad mod block_size
      in data_to_pad @ replicate padding_len padding_len)"

definition unpad :: "nat list \<Rightarrow> nat \<Rightarrow> py_error + nat list" where
  "unpad padded_data block_size =
     (let pdata_len = length padded_data
      in if pdata_len = 0 then Inl ValueError
         else if pdata_len mod block_size \<noteq> 0 then Inl ValueError
         else
           let padding_len = last padded_data
           in if padding_len < 1 then Inl ValueError
              else if min block_size pdata_len < padding_len then Inl ValueError
              else if drop (pdata_len - padding_len) padded_data
                      \<noteq> replicate padding_len padding_len
                then Inl ValueError
              else Inr (take (pdata_len - padding_len) padded_data))"

definition ecb :: "(nat list \<Rightarrow> nat list) \<Rightarrow> nat list \<Rightarrow> nat list \<Rightarrow> py_error + nat list" where
  "ecb block_op key data =
     (if length key \<noteq> 8 then Inl ValueError
      else if length data mod 8 \<noteq> 0 then Inl ValueError
      else Inr (concat (map block_op (chunks 8 data))))"

section \<open>quantumkey.py\<close>

subsection \<open>quantum_key_distribution\<close>

text \<open>
  One trial of the loop over \<^verbatim>\<open>range(num_bits * 2)\<close> is a tuple
  \<open>(ra, rb, a, b)\<close>: the raw random numbers behind the two \<^verbatim>\<open>np.random.randint(2)\<close>
  basis choices and the two measured bits that the simulator returns. The trials are an
  input; the function keeps the bits of the trials whose bases are equal.
\<close>

definition quantum_key_distribution ::
  "(nat \<Rightarrow> nat \<times> nat \<times> nat \<times> nat) \<Rightarrow> nat \<Rightarrow>
   nat list \<times> nat list \<times> nat list \<times> nat list" where
  "quantum_key_distribution oracle num_bits =
     (let trials = map oracle [0..<num_bits * 2];
          alice_bases = map (\<lambda>(ra, rb, a, b). np_random_randint 2 ra) trials;
          bob_bases = map (\<lambda>(ra, rb, a, b). np_random_randint 2 rb) trials;
          alice_bits = map (\<lambda>(ra, rb, a, b). a) trials;
          bob_bits = map (\<lambda>(ra, rb, a, b). b) trials;
          matching_bases =
            filter (\<lambda>i. alice_bases ! i = bob_bases ! i) [0..<length alice_bases];
          shared_key = map (\<lambda>i. alice_bits ! i) matching_bases
      in (shared_key,
          map (\<lambda>i. alice_bits ! i) matching_bases,
          map (\<lambda>i. bob_bits ! i) matching_bases,
          matching_bases))"

subsection \<open>verify_bell_inequality\<close>

text \<open>
  The body of the \<^verbatim>\<open>for a, b, ba, bb in zip(...)\<close> loop updates the pair
  \<open>(correlations, count)\<close>; the loop is the \<open>fold\<close> of that body over the zipped inputs.
\<close>

definition chsh_step :: "nat \<times> nat \<times> nat \<times> nat \<Rightarrow> int \<times> nat \<Rightarrow> int \<times> nat" where
  "chsh_step t acc =
     (case (t, acc) of ((a, b, ba, bb), (correlations, count)) \<Rightarrow>
        if (ba, bb) \<in> set [(0, 0), (0, 1), (1, 0), (1, 1)]
        then (correlations + (- 1) ^ (a XOR b), count + 1)
        else (correlations, count))"

definition verify_bell_inequality ::
  "nat list \<Rightarrow> nat list \<Rightarrow> nat list \<Rightarrow> nat list \<Rightarrow> bool" where
  "verify_bell_inequality alice_bits bob_bits alice_bases bob_bases =
     (case fold chsh_step (zip alice_bits (zip bob_bits (zip alice_bases bob_bases))) (0, 0) of
        (correlations, count) \<Rightarrow>
          if count = 0 then False
          else let chsh_value = \<bar>2 * rat_of_int correlations / rat_of_nat count\<bar>
               in chsh_value > 2.5)"

subsection \<open>estimate_error_rate\<close>

text \<open>
  \<open>default_sample_size\<close> is the right-hand side of the assignment under
  \<^verbatim>\<open>if not sample_size:\<close>, taken when the argument is None or 0. \<open>rs\<close> are the random
  numbers of \<^verbatim>\<open>np.random.choice\<close>. Reading \<^verbatim>\<open>bits2[i]\<close> beyond the end of \<open>bits2\<close>
  raises IndexError, in the count of errors for a sampled index and in
  \<^verbatim>\<open>remaining_bits2\<close> for a kept one; \<^verbatim>\<open>errors / sample_size\<close> raises
  ZeroDivisionError when the sample size is 0. The kept indices are listed in ascending
  order.
\<close>

definition default_sample_size :: "nat list \<Rightarrow> nat" where
  "default_sample_size bits1 = min (length bits1 div 4) 100"

definition estimate_error_rate ::
  "nat list \<Rightarrow> nat list \<Rightarrow> nat option \<Rightarrow> nat list \<Rightarrow>
   py_error + rat \<times> nat list \<times> nat list" where
  "estimate_error_rate bits1 bits2 sample_size rs =
     (let sample_size =
            (case sample_size of
               None \<Rightarrow> default_sample_size bits1
             | Some s \<Rightarrow> if s = 0 then default_sample_size bits1 else s)
      in case np_random_choice (length bits1) sample_size rs of
           Inl e \<Rightarrow> Inl e
         | Inr chosen \<Rightarrow>
             let sample_indices = sort chosen
             in if list_ex (\<lambda>i. length bits2 \<le> i) sample_indices then Inl IndexError
                else
                  let errors = length (filter (\<lambda>i. bits1 ! i \<noteq> bits2 ! i) sample_indices)
                  in if sample_size = 0 then Inl ZeroDivisionError
                     else
                       let error_rate = rat_of_nat errors / rat_of_nat sample_size;
                           keep_indices =
                             filter (\<lambda>i. i \<notin> set sample_indices) [0..<length bits1]
                       in if list_ex (\<lambda>i. length bits2 \<le> i) keep_indices then Inl IndexError
                          else Inr (error_rate,
                                    map (\<lambda>i. bits1 ! i) keep_indices,
                                    map (\<lambda>i. bits2 ! i) keep_indices))"

subsection \<open>privacy_amplification\<close>

text \<open>
  \<open>pack_group\<close> is the inner \<^verbatim>\<open>sum([bit << i for i, bit in enumerate(group[::-1])])\<close>:
  the last bit of a group has weight 1. \<open>format_08b\<close> is
  \<^verbatim>\<open>[int(bit) for bit in format(byte, '08b')]\<close> for a byte below 256. The argument
  \<open>final_length\<close> is None when it is left out.
\<close>

definition pack_group :: "nat list \<Rightarrow> nat" where
  "pack_group g = sum_list (map (\<lambda>(i, bit). push_bit i bit) (enumerate 0 (rev g)))"

definition format_08b :: "nat \<Rightarrow> nat list" where
  "format_08b byte = map (\<lambda>i. (byte div 2 ^ (7 - i)) mod 2) [0..<8]"

definition privacy_amplification :: "nat list \<Rightarrow> int option \<Rightarrow> py_error + nat list" where
  "privacy_amplification key_bits final_length =
     (let final_length =
            (case final_length of
               None \<Rightarrow> int (max (length key_bits div 2) 8)
             | Some n \<Rightarrow> if n = 0 then int (max (length key_bits div 2) 8) else n)
      in case py_bytes (map pack_group (chunks 8 key_bits)) of
           Inl e \<Rightarrow> Inl e
         | Inr key_bytes \<Rightarrow>
             let hashed = sha256 key_bytes;
                 amplified_key = concat (map format_08b hashed)
             in Inr (py_slice_to final_length amplified_key))"

subsection \<open>The error-rate branches of main\<close>

text \<open>
  The \<^verbatim>\<open>if\<close>/\<^verbatim>\<open>elif\<close> chain of \<^verbatim>\<open>main\<close> on \<^verbatim>\<open>error_rate\<close>, named after the
  message each branch prints. Only the first branch continues with the key; the other three
  return.
\<close>

datatype rate_verdict = WithinSafeLimits | SignificantInterference | StateCollapse | SevereBreach

definition main_error_rate_check :: "rat \<Rightarrow> rate_verdict" where
  "main_error_rate_check error_rate =
     (if error_rate \<le> 0.25 then WithinSafeLimits
      else if error_rate \<le> 0.359375 then SignificantInterference
      else if error_rate \<le> 0.5 then StateCollapse
      else SevereBreach)"

definition main_continues :: "rate_verdict \<Rightarrow> bool" where
  "main_continues v = (v = WithinSafeLimits)"

section \<open>keydes.py\<close>

subsection \<open>QuantumDES\<close>

text \<open>
  \<open>pack_byte bits i\<close> is the inner loop \<^verbatim>\<open>for j in range(8): byte = (byte << 1) | bits[i + j]\<close>
  started from \<^verbatim>\<open>byte = 0\<close>; the outer loop runs \<open>i\<close> over \<^verbatim>\<open>range(0, 64, 8)\<close>. Both
  callers make sure that \<open>bits\<close> has at least 64 elements, so \<^verbatim>\<open>bits[i + j]\<close> is in range.
  \<^verbatim>\<open>_bits_to_bytes\<close> raises ValueError on fewer than 64 bits. The object is its field
  \<^verbatim>\<open>key\<close>; the constructor returns it.
\<close>

definition pack_byte :: "nat list \<Rightarrow> nat \<Rightarrow> nat" where
  "pack_byte bits i = fold (\<lambda>j byte. push_bit 1 byte OR bits ! (i + j)) [0..<8] 0"

definition bits_to_bytes :: "nat list \<Rightarrow> py_error + nat list" where
  "bits_to_bytes bits =
     (if length bits < 64 then Inl ValueError
      else py_bytes (map (pack_byte bits) [0, 8, 16, 24, 32, 40, 48, 56]))"

definition QuantumDES_init :: "nat list \<Rightarrow> py_error + nat list" where
  "QuantumDES_init quantum_key = bits_to_bytes quantum_key"

text \<open>
  \<^verbatim>\<open>encrypt\<close> and \<^verbatim>\<open>decrypt\<close>, statement by statement; \<^verbatim>\<open>DES.block_size\<close> is 8. The
  result of \<^verbatim>\<open>b64encode(...).decode()\<close> is ASCII and has the same code points as bytes.
\<close>

definition des_encrypt ::
  "(nat list \<Rightarrow> nat list \<Rightarrow> nat list) \<Rightarrow> nat list \<Rightarrow> nat list \<Rightarrow> py_error + nat list" where
  "des_encrypt E key message =
     (case str_encode message of
        Inl e \<Rightarrow> Inl e
      | Inr encoded \<Rightarrow>
          let padded_data = pad encoded 8
          in case ecb (E key) key padded_data of
               Inl e \<Rightarrow> Inl e
             | Inr encrypted \<Rightarrow> bytes_decode (b64encode encrypted))"

definition des_decrypt ::
  "(nat list \<Rightarrow> nat list \<Rightarrow> nat list) \<Rightarrow> nat list \<Rightarrow> nat list \<Rightarrow> py_error + nat list" where
  "des_decrypt D key encrypted_message =
     (case b64decode encrypted_message of
        Inl e \<Rightarrow> Inl e
      | Inr encrypted \<Rightarrow>
          (case ecb (D key) key encrypted of
             Inl e \<Rightarrow> Inl e
           | Inr decrypted \<Rightarrow>
               (case unpad decrypted 8 of
                  Inl e \<Rightarrow> Inl e
                | Inr data \<Rightarrow> bytes_decode data)))"

definition QuantumDES_encrypt ::
  "(nat list \<Rightarrow> nat list \<Rightarrow> nat list) \<Rightarrow> nat list \<Rightarrow> nat list \<Rightarrow> py_error + nat list" where
  "QuantumDES_encrypt E key message = des_encrypt E key message"

definition QuantumDES_decrypt ::
  "(nat list \<Rightarrow> nat list \<Rightarrow> nat list) \<Rightarrow> nat list \<Rightarrow> nat list \<Rightarrow> py_error + nat list" where
  "QuantumDES_decrypt D key encrypted_message = des_decrypt D key encrypted_message"

subsection \<open>The key generation loop of simulate_iot_cloud_communication\<close>

text \<open>
  The \<^verbatim>\<open>while True\<close> loop that calls \<^verbatim>\<open>quantum_key_distribution(target_key_length)\<close>
  with \<^verbatim>\<open>target_key_length = 64\<close> until the shared key has at least 64 bits. The trials of
  the attempt numbered \<open>attempt\<close> are \<open>oracles attempt\<close>. The loop is a partial function:
  its value is None when it does not return. \<open>establish_shared_key\<close> adds the statement
  \<^verbatim>\<open>shared_key = shared_key[:64]\<close> that follows the loop.
\<close>

partial_function (option) key_generation_loop ::
  "(nat \<Rightarrow> nat \<Rightarrow> nat \<times> nat \<times> nat \<times> nat) \<Rightarrow> nat \<Rightarrow> nat list option" where
  "key_generation_loop oracles attempt =
     (case quantum_key_distribution (oracles attempt) 64 of
        (shared_key, alice_bits, bob_bits, matching_bases) \<Rightarrow>
          if 64 \<le> length shared_key then Some shared_key
          else key_generation_loop oracles (attempt + 1))"

definition establish_shared_key ::
  "(nat \<Rightarrow> nat \<Rightarrow> nat \<times> nat \<times> nat \<times> nat) \<Rightarrow> nat list option" where
  "establish_shared_key oracles = map_option (take 64) (key_generation_loop oracles 0)"

text \<open>
  \<open>shared_key_of oracles n\<close> is the shared key that attempt \<open>n\<close> generates. The two
  oracles below are trials in which the bases always differ, and trials in which they differ
  in the attempts before \<open>n\<close> and agree from attempt \<open>n\<close> on.
\<close>

definition shared_key_of :: "(nat \<Rightarrow> nat \<Rightarrow> nat \<times> nat \<times> nat \<times> nat) \<Rightarrow> nat \<Rightarrow> nat list" where
  "shared_key_of oracles n = fst (quantum_key_distribution (oracles n) 64)"

definition never_matching :: "nat \<Rightarrow> nat \<Rightarrow> nat \<times> nat \<times> nat \<times> nat" where
  "never_matching attempt i = (0, 1, 0, 0)"

definition matching_from :: "nat \<Rightarrow> nat \<Rightarrow> nat \<Rightarrow> nat \<times> nat \<times> nat \<times> nat" where
  "matching_from n attempt i = (if attempt < n then (0, 1, 0, 0) else (0, 0, 1, 1))"

section \<open>api_server_short.py\<close>

subsection \<open>ThreadSafeCache\<close>

text \<open>
  Every call in the handlers is \<^verbatim>\<open>cache.get("keys", role)\<close> or
  \<^verbatim>\<open>cache.set("keys", role, value)\<close> with a list as value, so the state of the server is
  the dictionary \<^verbatim>\<open>_cache["keys"]\<close>: a map from the role name to the bit list, where None
  stands for the Python None of an uninitialized role (and for a missing key, which
  \<^verbatim>\<open>dict.get\<close> does not tell apart). The entries \<^verbatim>\<open>circuits\<close>, \<^verbatim>\<open>measurements\<close> and
  \<^verbatim>\<open>qber_history\<close> are never read or written. Each method runs under the lock; the model
  is of one call at a time. \<^verbatim>\<open>clear\<close> runs \<^verbatim>\<open>__init__\<close> again.
\<close>

type_synonym cache_keys = "string \<Rightarrow> nat list option"

definition cache_init :: cache_keys where
  "cache_init = (\<lambda>role. None)"

definition cache_get :: "cache_keys \<Rightarrow> string \<Rightarrow> nat list option" where
  "cache_get keys subkey = keys subkey"

definition cache_set :: "cache_keys \<Rightarrow> string \<Rightarrow> nat list \<Rightarrow> cache_keys" where
  "cache_set keys subkey v = keys(subkey \<mapsto> v)"

definition cache_clear :: "cache_keys \<Rightarrow> cache_keys" where
  "cache_clear keys = cache_init"

text \<open>The truth value of a cached key: None and the empty list are false.\<close>

fun truthy :: "nat list option \<Rightarrow> bool" where
  "truthy None = False"
| "truthy (Some []) = False"
| "truthy (Some (x # xs)) = True"

subsection \<open>OptimizedQuantumDES\<close>

text \<open>
  The constructor pads the key bits with zeros to 64 and packs the first 64 of them with the
  same loops as \<^verbatim>\<open>QuantumDES._bits_to_bytes\<close>; \<^verbatim>\<open>[0] * n\<close> is empty for a negative \<open>n\<close>.
  \<^verbatim>\<open>encrypt\<close> and \<^verbatim>\<open>decrypt\<close> are the same statements as in \<^verbatim>\<open>QuantumDES\<close>.
\<close>

definition OptimizedQuantumDES_init :: "nat list \<Rightarrow> py_error + nat list" where
  "OptimizedQuantumDES_init key_bits =
     (let bits = key_bits @ replicate (64 - length key_bits) 0
      in py_bytes (map (pack_byte bits) [0, 8, 16, 24, 32, 40, 48, 56]))"

definition OptimizedQuantumDES_encrypt ::
  "(nat list \<Rightarrow> nat list \<Rightarrow> nat list) \<Rightarrow> nat list \<Rightarrow> nat list \<Rightarrow> py_error + nat list" where
  "OptimizedQuantumDES_encrypt E key message = des_encrypt E key message"

definition OptimizedQuantumDES_decrypt ::
  "(nat list \<Rightarrow> nat list \<Rightarrow> nat list) \<Rightarrow> nat list \<Rightarrow> nat list \<Rightarrow> py_error + nat list" where
  "OptimizedQuantumDES_decrypt D key encrypted_message = des_decrypt D key encrypted_message"

subsection \<open>calculate_qber and generate_quantum_key\<close>

definition calculate_qber :: "nat list \<Rightarrow> nat list \<Rightarrow> rat" where
  "calculate_qber key1 key2 =
     (if key1 = [] then 0
      else if key2 = [] then 0
      else if length key1 \<noteq> length key2 then 0
      else rat_of_nat (length (filter (\<lambda>(a, b). a \<noteq> b) (zip key1 key2)))
             / rat_of_nat (length key1))"

text \<open>
  The simulator is an input: \<open>sim i\<close> is the first bit of the measurement of iteration
  \<open>i\<close>, or None when the run raises. The loop appends one bit per iteration.
\<close>

fun measure_loop :: "(nat \<Rightarrow> nat option) \<Rightarrow> nat list \<Rightarrow> nat list \<Rightarrow> py_error + nat list" where
  "measure_loop sim [] key = Inr key"
| "measure_loop sim (i # is) key =
     (case sim i of
        None \<Rightarrow> Inl SimulatorError
      | Some m \<Rightarrow> measure_loop sim is (key @ [m]))"

definition generate_quantum_key :: "(nat \<Rightarrow> nat option) \<Rightarrow> nat \<Rightarrow> py_error + nat list" where
  "generate_quantum_key sim len = measure_loop sim [0..<len] []"

subsection \<open>Requests and responses\<close>

text \<open>
  A response is the JSON body with its status code. The log line of an \<^verbatim>\<open>eve_attack\<close>
  response is one constructor for each of the six f-strings of the handler, with the number
  of matches it prints. A handler that catches an exception answers with status 500.
\<close>

datatype log_msg =
    LogCracked nat
  | LogBruteForce nat
  | LogWithinSafeLimits nat
  | LogSignificant nat
  | LogCritical nat
  | LogSevere nat

datatype response =
    Preflight
  | ErrorResponse string nat
  | ExceptionResponse py_error nat
  | InitKeysResponse "nat list" "nat list" rat
  | EncryptResponse "nat list" "nat list"
  | DecryptResponse "nat list"
  | EveResponse string log_msg "nat list" "nat list option"

fun response_status :: "response \<Rightarrow> string" where
  "response_status (EveResponse status log_line eve_key new_quantum_key) = status"
| "response_status r = ''''"

fun response_log :: "response \<Rightarrow> log_msg option" where
  "response_log (EveResponse status log_line eve_key new_quantum_key) = Some log_line"
| "response_log r = None"

fun response_new_quantum_key :: "response \<Rightarrow> nat list option" where
  "response_new_quantum_key (EveResponse status log_line eve_key new_quantum_key) =
     new_quantum_key"
| "response_new_quantum_key r = None"

subsection \<open>init_keys\<close>

record init_random =
  classic_draws :: "nat \<Rightarrow> nat"
  quantum_sim :: "nat \<Rightarrow> nat option"
  eve_sim :: "nat \<Rightarrow> nat option"

definition init_keys :: "bool \<Rightarrow> init_random \<Rightarrow> cache_keys \<Rightarrow> response \<times> cache_keys" where
  "init_keys is_options rnd keys =
     (if is_options then (Preflight, keys)
      else
        let classic_key = map (\<lambda>i. random_randint 0 1 (classic_draws rnd i)) [0..<64]
        in case generate_quantum_key (quantum_sim rnd) 64 of
             Inl e \<Rightarrow> (ExceptionResponse e 500, keys)
           | Inr quantum_key \<Rightarrow>
               (case generate_quantum_key (eve_sim rnd) 64 of
                  Inl e \<Rightarrow> (ExceptionResponse e 500, keys)
                | Inr eve_bits \<Rightarrow>
                    let qber = calculate_qber quantum_key eve_bits;
                        keys = cache_set keys ''classic'' classic_key;
                        keys = cache_set keys ''quantum'' quantum_key;
                        keys = cache_set keys ''eve'' eve_bits
                    in (InitKeysResponse classic_key quantum_key qber, keys)))"

subsection \<open>encrypt and decrypt\<close>

text \<open>
  The request body is the pair of its two fields, None for a missing one. Neither handler
  writes to the cache.
\<close>

definition encrypt ::
  "(nat list \<Rightarrow> nat list \<Rightarrow> nat list) \<Rightarrow> nat list option \<Rightarrow> string option \<Rightarrow> cache_keys \<Rightarrow>
   response \<times> cache_keys" where
  "encrypt E message_field key_type_field keys =
     (case (message_field, key_type_field) of
        (Some message, Some key_type) \<Rightarrow>
          if key_type \<notin> set [''classic'', ''quantum'']
          then (ErrorResponse ''Invalid key type'' 400, keys)
          else
            let current_key = cache_get keys key_type
            in if \<not> truthy current_key
               then (ErrorResponse (''No '' @ key_type @ '' key initialized'') 400, keys)
               else
                 (case OptimizedQuantumDES_init (the current_key) of
                    Inl e \<Rightarrow> (ExceptionResponse e 500, keys)
                  | Inr cipher \<Rightarrow>
                      (case OptimizedQuantumDES_encrypt E cipher message of
                         Inl e \<Rightarrow> (ExceptionResponse e 500, keys)
                       | Inr encrypted_msg \<Rightarrow>
                           (EncryptResponse encrypted_msg (take 16 (the current_key)), keys)))
      | _ \<Rightarrow> (ErrorResponse ''Missing required parameters'' 400, keys))"

definition decrypt ::
  "(nat list \<Rightarrow> nat list \<Rightarrow> nat list) \<Rightarrow> nat list option \<Rightarrow> string option \<Rightarrow> cache_keys \<Rightarrow>
   response \<times> cache_keys" where
  "decrypt D encrypted_msg_field key_type_field keys =
     (case (encrypted_msg_field, key_type_field) of
        (Some encrypted_msg, Some key_type) \<Rightarrow>
          if key_type \<notin> set [''classic'', ''quantum'']
          then (ErrorResponse ''Invalid key type'' 400, keys)
          else
            let current_key = cache_get keys key_type
            in if \<not> truthy current_key
               then (ErrorResponse (''No '' @ key_type @ '' key initialized'') 400, keys)
               else
                 (case OptimizedQuantumDES_init (the current_key) of
                    Inl e \<Rightarrow> (ExceptionResponse e 500, keys)
                  | Inr cipher \<Rightarrow>
                      (case OptimizedQuantumDES_decrypt D cipher encrypted_msg of
                         Inl e \<Rightarrow> (ExceptionResponse e 500, keys)
                       | Inr decrypted_msg \<Rightarrow> (DecryptResponse decrypted_msg, keys)))
      | _ \<Rightarrow> (ErrorResponse ''Missing required parameters'' 400, keys))"

subsection \<open>eve_attack\<close>

text \<open>
  The random draws of one call: the 64 bits of Eve's guess, the number of positions to
  overwrite, the positions, and the simulator runs of a key regeneration.

  \<open>draw_attempt_key\<close> is \<^verbatim>\<open>[random.randint(0, 1) for _ in range(64)]\<close>;
  \<open>draw_positions\<close> is the list of the \<^verbatim>\<open>bit_pos = random.randint(0, 63)\<close> of the
  \<^verbatim>\<open>correct_bits = random.randint(32, 58)\<close> iterations.

  \<open>overwrite_loop\<close> is the loop
  \<^verbatim>\<open>for i in range(correct_bits): eve_attempt_key[bit_pos] = current_key[bit_pos]\<close> over the
  drawn positions. It returns the error, if an index is out of range, together with the list
  as it is at that moment: the list is mutated in place and is the object that
  \<^verbatim>\<open>cache.set("keys", "eve", eve_attempt_key)\<close> stored before the loop, so the cache holds
  whatever the loop has written.

  \<open>regenerate\<close> is the body that the three regenerating branches of the quantum case
  share; they differ in the log line only.
\<close>

record eve_random =
  attempt_draws :: "nat \<Rightarrow> nat"
  correct_draw :: nat
  position_draws :: "nat \<Rightarrow> nat"
  regen_sim :: "nat \<Rightarrow> nat option"

definition draw_attempt_key :: "eve_random \<Rightarrow> nat list" where
  "draw_attempt_key rnd = map (\<lambda>i. random_randint 0 1 (attempt_draws rnd i)) [0..<64]"

definition draw_positions :: "eve_random \<Rightarrow> nat list" where
  "draw_positions rnd =
     (let correct_bits = random_randint 32 58 (correct_draw rnd)
      in map (\<lambda>i. random_randint 0 63 (position_draws rnd i)) [0..<correct_bits])"

fun overwrite_loop :: "nat list \<Rightarrow> nat list \<Rightarrow> nat list \<Rightarrow> py_error option \<times> nat list" where
  "overwrite_loop current_key eve_attempt_key [] = (None, eve_attempt_key)"
| "overwrite_loop current_key eve_attempt_key (bit_pos # ps) =
     (if bit_pos < length current_key \<and> bit_pos < length eve_attempt_key
      then overwrite_loop current_key (eve_attempt_key[bit_pos := current_key ! bit_pos]) ps
      else (Some IndexError, eve_attempt_key))"

definition count_matches :: "nat list \<Rightarrow> nat list \<Rightarrow> nat" where
  "count_matches current_key eve_attempt_key =
     length (filter (\<lambda>(a, b). a = b) (zip current_key eve_attempt_key))"

definition regenerate ::
  "eve_random \<Rightarrow> (nat \<Rightarrow> log_msg) \<Rightarrow> nat \<Rightarrow> nat list \<Rightarrow> cache_keys \<Rightarrow> response \<times> cache_keys" where
  "regenerate rnd log_line matches eve_attempt_key keys =
     (case generate_quantum_key (regen_sim rnd) 64 of
        Inl e \<Rightarrow> (ExceptionResponse e 500, keys)
      | Inr new_quantum_key \<Rightarrow>
          (EveResponse ''detected_reinit'' (log_line matches) (take 16 eve_attempt_key)
             (Some new_quantum_key),
           cache_set keys ''quantum'' new_quantum_key))"

definition eve_attack :: "eve_random \<Rightarrow> string option \<Rightarrow> cache_keys \<Rightarrow> response \<times> cache_keys" where
  "eve_attack rnd key_type_field keys =
     (case key_type_field of
        None \<Rightarrow> (ErrorResponse ''Missing required parameters'' 400, keys)
      | Some key_type \<Rightarrow>
          if key_type \<notin> set [''classic'', ''quantum'']
          then (ErrorResponse ''Invalid key type'' 400, keys)
          else
            let current_key = cache_get keys key_type;
                eve_key = cache_get keys ''eve''
            in if \<not> (truthy current_key \<and> truthy eve_key)
               then (ErrorResponse ''Keys not initialized'' 400, keys)
               else if key_type = ''classic'' then
                 (let current_key = the current_key;
                      eve_attempt_key = draw_attempt_key rnd
                  in case overwrite_loop current_key eve_attempt_key (draw_positions rnd) of
                       (Some e, eve_attempt_key) \<Rightarrow>
                         (ExceptionResponse e 500, cache_set keys ''eve'' eve_attempt_key)
                     | (None, eve_attempt_key) \<Rightarrow>
                         let keys = cache_set keys ''eve'' eve_attempt_key;
                             matches = count_matches current_key eve_attempt_key;
                             success = (48 < matches)
                         in if success
                            then (EveResponse ''cracked'' (LogCracked matches)
                                    (take 16 current_key) None,
                                  cache_set keys ''eve'' current_key)
                            else (EveResponse ''progress'' (LogBruteForce matches)
                                    (take 16 eve_attempt_key) None,
                                  keys))
               else
                 (let current_key = the current_key;
                      eve_attempt_key = draw_attempt_key rnd;
                      keys = cache_set keys ''eve'' eve_attempt_key;
                      matches = count_matches current_key eve_attempt_key
                  in if matches \<le> 16
                     then (EveResponse ''detected_safe'' (LogWithinSafeLimits matches)
                             (take 16 eve_attempt_key) None,
                           keys)
                     else if matches < 24
                       then regenerate rnd LogSignificant matches eve_attempt_key keys
                     else if matches < 32
                       then regenerate rnd LogCritical matches eve_attempt_key keys
                     else regenerate rnd LogSevere matches eve_attempt_key keys))"

subsection \<open>Sequences of operations\<close>

text \<open>
  The public operations with their inputs, and the state after a sequence of them, started
  from a fresh cache.
\<close>

datatype operation =
    InitKeys bool init_random
  | EveAttack eve_random "string option"
  | Encrypt "nat list option" "string option"
  | Decrypt "nat list option" "string option"
  | Clear

fun step ::
  "(nat list \<Rightarrow> nat list \<Rightarrow> nat list) \<Rightarrow> (nat list \<Rightarrow> nat list \<Rightarrow> nat list) \<Rightarrow>
   cache_keys \<Rightarrow> operation \<Rightarrow> cache_keys" where
  "step E D keys (InitKeys is_options rnd) = snd (init_keys is_options rnd keys)"
| "step E D keys (EveAttack rnd key_type_field) = snd (eve_attack rnd key_type_field keys)"
| "step E D keys (Encrypt message_field key_type_field) =
     snd (encrypt E message_field key_type_field keys)"
| "step E D keys (Decrypt encrypted_msg_field key_type_field) =
     snd (decrypt D encrypted_msg_field key_type_field keys)"
| "step E D keys Clear = cache_clear keys"

definition run ::
  "(nat list \<Rightarrow> nat list \<Rightarrow> nat list) \<Rightarrow> (nat list \<Rightarrow> nat list \<Rightarrow> nat list) \<Rightarrow>
   operation list \<Rightarrow> cache_keys" where
  "run E D ops = foldl (step E D) cache_init ops"

subsection \<open>Sample inputs\<close>

text \<open>
  Draws for \<^verbatim>\<open>init_keys\<close> that give the classic key 0101..., the quantum key of 64 zeros
  and Eve's key 0101...; draws for \<^verbatim>\<open>eve_attack\<close> whose guess is \<open>m\<close> zeros followed by
  ones, with \<open>32 + c\<close> overwritten positions 0, 1, 2, ...; and a byte-wise addition cipher
  on 8-byte blocks.
\<close>

definition sample_init :: init_random where
  "sample_init =
     \<lparr>classic_draws = (\<lambda>i. i), quantum_sim = (\<lambda>i. Some 0), eve_sim = (\<lambda>i. Some (i mod 2))\<rparr>"

definition sample_eve :: "nat \<Rightarrow> nat \<Rightarrow> eve_random" where
  "sample_eve m c =
     \<lparr>attempt_draws = (\<lambda>i. if i < m then 0 else 1), correct_draw = c,
      position_draws = (\<lambda>i. i), regen_sim = (\<lambda>i. Some 1)\<rparr>"

definition sample_keys :: cache_keys where
  "sample_keys = snd (init_keys False sample_init cache_init)"

definition add_cipher :: "nat list \<Rightarrow> nat list \<Rightarrow> nat list" where
  "add_cipher key block = map (\<lambda>(k, b). (b + k) mod 256) (zip key block)"

definition sub_cipher :: "nat list \<Rightarrow> nat list \<Rightarrow> nat list" where
  "sub_cipher key block = map (\<lambda>(k, c). (c + 256 - k mod 256) mod 256) (zip key block)"

section \<open>Definitions that follow the words of the specification\<close>

text \<open>
  \<open>derive_cipher_key_spec\<close>: the source bits, padded with zero bits on the right up to 64,
  of which the first 64 are packed into 8 bytes, most significant bit first within each
  byte. \<open>padded_bit bits n\<close> is bit \<open>n\<close> of the padded sequence.
\<close>

definition padded_bit :: "nat list \<Rightarrow> nat \<Rightarrow> nat" where
  "padded_bit bits n = (if n < length bits then bits ! n else 0)"

definition derive_cipher_key_spec :: "nat list \<Rightarrow> nat list" where
  "derive_cipher_key_spec bits =
     map (\<lambda>k. sum_list (map (\<lambda>j. padded_bit bits (8 * k + j) * 2 ^ (7 - j)) [0..<8])) [0..<8]"

text \<open>
  \<open>key_length_invariant\<close>: the entry of a role in the cache is either absent (uninitialized)
  or a sequence of exactly 64 bits.
\<close>

definition key_length_invariant :: "cache_keys \<Rightarrow> bool" where
  "key_length_invariant keys =
     (\<forall>role. case keys role of None \<Rightarrow> True | Some k \<Rightarrow> length k = 64)"

section \<open>Properties\<close>

subsection \<open>The correlation check\<close>

lemma chsh_fold_bound:
  "\<bar>c\<bar> \<le> int n \<Longrightarrow> fold chsh_step xs (c, n) = (c', n') \<Longrightarrow> \<bar>c'\<bar> \<le> int n'"
proof (induction xs arbitrary: c n)
  case Nil
  then show ?case by simp
next
  case (Cons t xs)
  obtain a b ba bb where t: "t = (a, b, ba, bb)" by (cases t) auto
  have pm: "((- 1) ^ (a XOR b) :: int) = 1 \<or> ((- 1) ^ (a XOR b) :: int) = - 1"
    by (cases "even (a XOR b)") simp_all
  show ?case
  proof (cases "(ba, bb) \<in> set [(0, 0), (0, 1), (1, 0), (1, 1)]")
    case True
    then have step: "chsh_step t (c, n) = (c + (- 1) ^ (a XOR b), n + 1)"
      by (simp add: chsh_step_def t)
    have "\<bar>c + (- 1) ^ (a XOR b)\<bar> \<le> int (n + 1)"
      using pm Cons.prems(1) by auto
    then show ?thesis
      using Cons.IH [of "c + (- 1) ^ (a XOR b)" "n + 1"] Cons.prems(2) step by simp
  next
    case False
    then have "chsh_step t (c, n) = (c, n)"
      by (simp add: chsh_step_def t)
    then show ?thesis
      using Cons.IH [of c n] Cons.prems by simp
  qed
qed

text \<open>
  C4: for every input, \<open>verify_bell_inequality\<close> returns False. Each qualifying trial adds
  1 or -1 to \<open>correlations\<close> and 1 to \<open>count\<close>, so \<open>\<bar>2 * correlations / count\<bar>\<close> is at
  most 2 and never exceeds 2.5; with no qualifying trial the function returns False at once.
\<close>

theorem verify_bell_inequality_always_False:
  "verify_bell_inequality alice_bits bob_bits alice_bases bob_bases = False"
proof -
  obtain c n where
    f: "fold chsh_step (zip alice_bits (zip bob_bits (zip alice_bases bob_bases))) (0, 0) = (c, n)"
    by (cases "fold chsh_step (zip alice_bits (zip bob_bits (zip alice_bases bob_bases))) (0, 0)")
      auto
  have b: "\<bar>c\<bar> \<le> int n"
    using chsh_fold_bound [OF _ f] by simp
  show ?thesis
  proof (cases "n = 0")
    case True
    then show ?thesis by (simp add: verify_bell_inequality_def f)
  next
    case False
    then have pos: "0 < rat_of_nat n" by simp
    have "\<bar>rat_of_int c\<bar> \<le> rat_of_nat n"
      using b by (metis of_int_abs of_int_le_iff of_int_of_nat_eq)
    then have "\<bar>2 * rat_of_int c\<bar> \<le> 2 * rat_of_nat n"
      by (simp add: abs_mult)
    then have "\<bar>2 * rat_of_int c / rat_of_nat n\<bar> \<le> 2"
      using pos by (simp add: pos_divide_le_eq)
    then show ?thesis
      using False by (simp add: verify_bell_inequality_def f Let_def)
  qed
qed

subsection \<open>The sampled error rate\<close>

text \<open>
  C3: on empty inputs, and on inputs of different lengths, \<open>estimate_error_rate\<close> does
  not return the rate 0: for empty inputs the sample size is 0 and the division raises; when
  the second sequence is the longer one the rate of the sample is returned (here 1); when it
  is the shorter one an index beyond its end is read.
\<close>

theorem estimate_error_rate_no_shape_guard:
  "estimate_error_rate [] [] None rs = Inl ZeroDivisionError \<and>
   estimate_error_rate [0, 0, 0, 0] [1, 1, 1, 1, 1] None [2] = Inr (1, [0, 0, 0], [1, 1, 1]) \<and>
   estimate_error_rate [0, 0, 0, 0, 1] [1, 1, 1, 1] None [2] = Inl IndexError"
  by (simp add: estimate_error_rate_def default_sample_size_def np_random_choice_def)

text \<open>
  C9: for a non-empty input of fewer than 4 bits the default sample size is 0, not 1, and
  the rate computation divides by it.
\<close>

theorem default_sample_size_zero_divisor:
  "default_sample_size [1] = 0 \<and> estimate_error_rate [1] [1] None rs = Inl ZeroDivisionError"
  by (simp add: estimate_error_rate_def default_sample_size_def np_random_choice_def)

lemma default_sample_size_from_4:
  "4 \<le> length bits1 \<Longrightarrow>
   default_sample_size bits1 = min (max 1 (length bits1 div 4)) 100"
  by (simp add: default_sample_size_def max_def)

subsection \<open>Privacy amplification\<close>

lemma length_sha256: "length (sha256 msg) = 32"
  unfolding sha256_def
  by (cases "fold sha256_compress (chunks 64 (sha256_pad msg)) sha256_H0" rule: sha256_digest.cases)
     (simp add: word_bytes_def)

lemma chunks_member:
  "c \<in> set (chunks n xs) \<Longrightarrow> length c \<le> n \<and> set c \<subseteq> set xs"
proof (induction n xs rule: chunks.induct)
  case (1 n)
  then show ?case by simp
next
  case (2 n x xs)
  show ?case
  proof (cases "n = 0")
    case True
    with 2 show ?thesis by simp
  next
    case False
    with "2.prems" have "c = take n (x # xs) \<or> c \<in> set (chunks n (drop n (x # xs)))"
      by simp
    then show ?thesis
    proof
      assume "c = take n (x # xs)"
      then show ?thesis using set_take_subset [of n "x # xs"] by simp
    next
      assume m: "c \<in> set (chunks n (drop n (x # xs)))"
      have "length c \<le> n \<and> set c \<subseteq> set (drop n (x # xs))"
        using "2.IH" [OF False m] .
      then show ?thesis using set_drop_subset [of n "x # xs"] by blast
    qed
  qed
qed

lemma weighted_sum_bound:
  "\<forall>b \<in> set xs. b \<le> (1::nat) \<Longrightarrow>
   sum_list (map (\<lambda>(i, bit). push_bit i bit) (enumerate n xs)) + 2 ^ n \<le> 2 ^ (n + length xs)"
proof (induction xs arbitrary: n)
  case Nil
  then show ?case by simp
next
  case (Cons x xs)
  define S where "S = sum_list (map (\<lambda>(i, bit). push_bit i bit) (enumerate (Suc n) xs))"
  have ih: "S + 2 ^ Suc n \<le> 2 ^ (Suc n + length xs)"
    unfolding S_def using Cons.IH [of "Suc n"] Cons.prems by simp
  have x: "x * 2 ^ n \<le> (2::nat) ^ n"
    using Cons.prems by simp
  have eq: "sum_list (map (\<lambda>(i, bit). push_bit i bit) (enumerate n (x # xs))) = x * 2 ^ n + S"
    by (simp add: S_def push_bit_eq_mult)
  have "x * 2 ^ n + S + 2 ^ n \<le> S + 2 * 2 ^ n"
    using x by linarith
  also have "\<dots> = S + 2 ^ Suc n"
    by simp
  also note ih
  finally have "x * 2 ^ n + S + 2 ^ n \<le> 2 ^ (Suc n + length xs)" .
  then show ?case
    unfolding eq by simp
qed

lemma pack_group_bound:
  assumes "\<forall>b \<in> set g. b \<le> (1::nat)" and "length g \<le> 8"
  shows "pack_group g < 256"
proof -
  have "pack_group g + 2 ^ 0 \<le> 2 ^ (0 + length (rev g))"
    unfolding pack_group_def using weighted_sum_bound [of "rev g" 0] assms(1) by simp
  moreover have "(2::nat) ^ length g \<le> 2 ^ 8"
    using assms(2) by (intro power_increasing) simp_all
  ultimately show ?thesis by simp
qed

lemma py_bytes_groups:
  assumes "list_all (\<lambda>b. b \<le> 1) key_bits"
  shows "py_bytes (map pack_group (chunks 8 key_bits)) = Inr (map pack_group (chunks 8 key_bits))"
proof -
  have "pack_group c < 256" if "c \<in> set (chunks 8 key_bits)" for c
  proof -
    from chunks_member [OF that] have "length c \<le> 8" and "set c \<subseteq> set key_bits" by simp_all
    moreover from assms have "\<forall>b \<in> set key_bits. b \<le> 1" by (simp add: list_all_iff)
    ultimately show ?thesis by (intro pack_group_bound) auto
  qed
  then show ?thesis by (simp add: py_bytes_def list_all_iff)
qed

lemma length_amplified:
  "length (concat (map format_08b (sha256 bs))) = 256"
proof -
  have "length (concat (map format_08b hs)) = 8 * length hs" for hs
    by (induction hs) (simp_all add: format_08b_def)
  then show ?thesis by (simp add: length_sha256)
qed

text \<open>
  C6 (amended): \<open>privacy_amplification\<close> is a function of its two arguments, and on a bit
  sequence it returns a list whose length is the requested \<open>final_length\<close> capped at the 256
  bits of the digest (for a negative \<open>final_length\<close>, 256 minus its absolute value). The
  default, taken when \<open>final_length\<close> is None or 0, is \<open>max (length key_bits div 2) 8\<close>.
\<close>

theorem privacy_amplification_length:
  assumes "list_all (\<lambda>b. b \<le> 1) key_bits"
  shows "(key_bits' = key_bits \<and> final_length' = final_length \<longrightarrow>
            privacy_amplification key_bits' final_length' =
            privacy_amplification key_bits final_length) \<and>
         (\<exists>out. privacy_amplification key_bits final_length = Inr out \<and>
            length out =
              (let n = (case final_length of
                          None \<Rightarrow> int (max (length key_bits div 2) 8)
                        | Some n \<Rightarrow> if n = 0 then int (max (length key_bits div 2) 8) else n)
               in if 0 \<le> n then min (nat n) 256 else 256 - nat (- n)))"
  using py_bytes_groups [OF assms]
  by (simp add: privacy_amplification_def py_slice_to_def length_amplified Let_def min_def
      split: option.split)

theorem privacy_amplification_length_witness:
  "list_all (\<lambda>b. b \<le> 1) [1, 0, 1, 1, 0, 0, 1, 0, 1, 1, 1 :: nat] \<and>
   map_sum id length (privacy_amplification [1, 0, 1, 1, 0, 0, 1, 0, 1, 1, 1] (Some 64)) = Inr 64 \<and>
   map_sum id length (privacy_amplification [1, 0, 1, 1, 0, 0, 1, 0, 1, 1, 1] None) = Inr 8"
  using privacy_amplification_length [of "[1, 0, 1, 1, 0, 0, 1, 0, 1, 1, 1]" _ _ "Some 64"]
    privacy_amplification_length [of "[1, 0, 1, 1, 0, 0, 1, 0, 1, 1, 1]" _ _ None]
  by auto

text \<open>
  The claim as stated fails: a requested length of 300 gives 256 bits.
\<close>

theorem privacy_amplification_length_counterexample:
  "map_sum id length (privacy_amplification [] (Some 300)) = Inr 256"
proof -
  have "list_all (\<lambda>b. b \<le> 1) ([] :: nat list)" by simp
  from py_bytes_groups [OF this] show ?thesis
    by (simp add: privacy_amplification_def py_slice_to_def length_amplified)
qed

subsection \<open>Deriving the cipher key\<close>

lemma shift_or_bit: "b \<le> 1 \<Longrightarrow> x * 2 OR b = 2 * x + (b::nat)"
proof -
  assume "b \<le> 1"
  then consider "b = 0" | "b = 1" by linarith
  then show ?thesis
  proof cases
    case 1
    then show ?thesis by simp
  next
    case 2
    have "x * 2 OR 1 = x * 2 + of_bool (even (x * 2))"
      by (rule or_one_eq)
    then show ?thesis using 2 by simp
  qed
qed

lemma upt_8: "[0..<8] = [0, 1, 2, 3, 4, 5, 6, 7::nat]"
  by (simp add: upt_rec)

lemma pack_byte_sum:
  assumes "\<forall>j<8. f j \<le> (1::nat)"
  shows "fold (\<lambda>j byte. push_bit 1 byte OR f j) [0..<8] 0 =
         sum_list (map (\<lambda>j. f j * 2 ^ (7 - j)) [0..<8])"
proof -
  have b: "f 0 \<le> 1" "f 1 \<le> 1" "f 2 \<le> 1" "f 3 \<le> 1" "f 4 \<le> 1" "f 5 \<le> 1" "f 6 \<le> 1" "f 7 \<le> 1"
    using assms by simp_all
  show ?thesis
    unfolding upt_8 using b by (simp add: shift_or_bit)
qed

lemma pack_byte_lt_256:
  assumes "\<forall>j<8. f j \<le> (1::nat)"
  shows "sum_list (map (\<lambda>j. f j * 2 ^ (7 - j)) [0..<8]) < 256"
proof -
  have b: "f 0 \<le> 1" "f 1 \<le> 1" "f 2 \<le> 1" "f 3 \<le> 1" "f 4 \<le> 1" "f 5 \<le> 1" "f 6 \<le> 1" "f 7 \<le> 1"
    using assms by simp_all
  show ?thesis
    unfolding upt_8 using b by simp
qed
lemma padded_bit_le_1:
  "list_all (\<lambda>b. b \<le> 1) bits \<Longrightarrow> padded_bit bits n \<le> 1"
  by (simp add: padded_bit_def list_all_length)

lemma pack_byte_spec:
  assumes bits: "list_all (\<lambda>b. b \<le> 1) bits"
    and xs: "\<forall>n<64. xs ! n = padded_bit bits n"
    and k: "k < 8"
  shows "pack_byte xs (8 * k) =
           sum_list (map (\<lambda>j. padded_bit bits (8 * k + j) * 2 ^ (7 - j)) [0..<8])"
    and "pack_byte xs (8 * k) < 256"
proof -
  have eq: "xs ! (8 * k + j) = padded_bit bits (8 * k + j)" if "j < 8" for j
    using xs k that by simp
  have le: "\<forall>j<8. padded_bit bits (8 * k + j) \<le> 1"
    using padded_bit_le_1 [OF bits] by simp
  have "pack_byte xs (8 * k) =
          fold (\<lambda>j byte. push_bit 1 byte OR padded_bit bits (8 * k + j)) [0..<8] 0"
    unfolding pack_byte_def by (rule fold_cong) (simp_all add: eq)
  also have "\<dots> = sum_list (map (\<lambda>j. padded_bit bits (8 * k + j) * 2 ^ (7 - j)) [0..<8])"
    using le by (rule pack_byte_sum)
  finally show "pack_byte xs (8 * k) =
      sum_list (map (\<lambda>j. padded_bit bits (8 * k + j) * 2 ^ (7 - j)) [0..<8])" .
  then show "pack_byte xs (8 * k) < 256"
    using pack_byte_lt_256 [OF le] by simp
qed

lemma packed_key:
  assumes bits: "list_all (\<lambda>b. b \<le> 1) bits"
    and xs: "\<forall>n<64. xs ! n = padded_bit bits n"
  shows "py_bytes (map (pack_byte xs) [0, 8, 16, 24, 32, 40, 48, 56]) =
           Inr (derive_cipher_key_spec bits)"
proof -
  have idx: "[0, 8, 16, 24, 32, 40, 48, 56] = map (\<lambda>k. 8 * k) [0..<8::nat]"
    by (simp add: upt_8)
  have m: "map (pack_byte xs) [0, 8, 16, 24, 32, 40, 48, 56] = derive_cipher_key_spec bits"
    unfolding idx derive_cipher_key_spec_def map_map
    by (rule map_cong) (simp_all add: pack_byte_spec(1) [OF bits xs])
  have "list_all (\<lambda>x. x < 256) (map (pack_byte xs) [0, 8, 16, 24, 32, 40, 48, 56])"
    unfolding idx by (simp add: list_all_iff pack_byte_spec(2) [OF bits xs])
  then show ?thesis
    unfolding py_bytes_def m [symmetric] by simp
qed

text \<open>
  C8 (amended): on a bit sequence, the constructor of \<open>OptimizedQuantumDES\<close> pads with zero
  bits on the right up to 64 and returns the first 64 bits packed into 8 bytes, most
  significant bit first; \<open>QuantumDES._bits_to_bytes\<close> packs the first 64 bits in the same way
  when there are at least 64, and raises ValueError when there are fewer.
\<close>

theorem derive_cipher_key_pads_or_raises:
  assumes "list_all (\<lambda>b. b \<le> 1) bits"
  shows "OptimizedQuantumDES_init bits = Inr (derive_cipher_key_spec bits) \<and>
         bits_to_bytes bits =
           (if length bits < 64 then Inl ValueError else Inr (derive_cipher_key_spec bits))"
proof -
  have "\<forall>n<64. (bits @ replicate (64 - length bits) 0) ! n = padded_bit bits n"
    by (auto simp add: padded_bit_def nth_append)
  from packed_key [OF assms this]
  have opt: "OptimizedQuantumDES_init bits = Inr (derive_cipher_key_spec bits)"
    by (simp add: OptimizedQuantumDES_init_def)
  have "bits_to_bytes bits = Inr (derive_cipher_key_spec bits)" if "\<not> length bits < 64"
  proof -
    from that have "\<forall>n<64. bits ! n = padded_bit bits n"
      by (simp add: padded_bit_def)
    from packed_key [OF assms this] that show ?thesis
      by (simp add: bits_to_bytes_def)
  qed
  then show ?thesis
    using opt by (simp add: bits_to_bytes_def)
qed

theorem derive_cipher_key_pads_or_raises_witness:
  "list_all (\<lambda>b. b \<le> 1) [1, 0, 1 :: nat] \<and>
   OptimizedQuantumDES_init [1, 0, 1] = Inr [160, 0, 0, 0, 0, 0, 0, 0] \<and>
   bits_to_bytes [1, 0, 1] = Inl ValueError"
  using derive_cipher_key_pads_or_raises [of "[1, 0, 1]"]
  by (simp add: derive_cipher_key_spec_def padded_bit_def upt_8)

text \<open>
  The claim as stated fails for \<open>QuantumDES\<close>: a key of three bits is refused, not padded.
\<close>

theorem bits_to_bytes_short_key_counterexample:
  "bits_to_bytes [1, 0, 1] = Inl ValueError"
  by (simp add: bits_to_bytes_def)

subsection \<open>The key generation loop\<close>

lemma loop_unfold:
  "key_generation_loop oracles k =
     (if 64 \<le> length (shared_key_of oracles k) then Some (shared_key_of oracles k)
      else key_generation_loop oracles (k + 1))"
  by (subst key_generation_loop.simps) (simp add: shared_key_of_def split: prod.split)

lemma loop_Some_supplied:
  assumes "key_generation_loop oracles k = Some y"
  shows "\<exists>n\<ge>k. 64 \<le> length (shared_key_of oracles n)"
proof (rule key_generation_loop.raw_induct
    [where P = "\<lambda>orcs a y. \<exists>n\<ge>a. 64 \<le> length (shared_key_of orcs n)", OF _ assms])
  fix loop :: "(nat \<Rightarrow> nat \<Rightarrow> nat \<times> nat \<times> nat \<times> nat) \<Rightarrow> nat \<Rightarrow> nat list option"
    and orcs attempt and r :: "nat list"
  assume IH: "\<And>a b y. loop a b = Some y \<Longrightarrow> \<exists>n\<ge>b. 64 \<le> length (shared_key_of a n)"
    and body: "(case quantum_key_distribution (orcs attempt) 64 of
       (shared_key, alice_bits, bob_bits, matching_bases) \<Rightarrow>
         if 64 \<le> length shared_key then Some shared_key
         else loop orcs (attempt + 1)) = Some r"
  obtain sk ab bb mb where q: "quantum_key_distribution (orcs attempt) 64 = (sk, ab, bb, mb)"
    by (rule prod_cases4)
  then have sk: "shared_key_of orcs attempt = sk"
    by (simp add: shared_key_of_def)
  from body have c: "(if 64 \<le> length sk then Some sk else loop orcs (attempt + 1)) = Some r"
    unfolding q by simp
  show "\<exists>n\<ge>attempt. 64 \<le> length (shared_key_of orcs n)"
  proof (cases "64 \<le> length sk")
    case True
    then show ?thesis using sk by blast
  next
    case False
    with c have "loop orcs (attempt + 1) = Some r"
      by simp
    from IH [OF this] obtain n where "attempt + 1 \<le> n" "64 \<le> length (shared_key_of orcs n)"
      by blast
    then show ?thesis by (intro exI [of _ n]) simp
  qed
qed

lemma loop_first_supplied:
  assumes "k \<le> n" and "64 \<le> length (shared_key_of oracles n)"
    and "\<forall>m. k \<le> m \<and> m < n \<longrightarrow> length (shared_key_of oracles m) < 64"
  shows "key_generation_loop oracles k = Some (shared_key_of oracles n)"
  using assms
proof (induction "n - k" arbitrary: k)
  case 0
  then have "k = n" by simp
  with 0 show ?case by (subst loop_unfold) simp
next
  case (Suc d)
  then have lt: "k < n" by simp
  with Suc.prems(3) have short: "length (shared_key_of oracles k) < 64" by simp
  have "key_generation_loop oracles (k + 1) = Some (shared_key_of oracles n)"
  proof (rule Suc.hyps(1))
    show "d = n - (k + 1)" using Suc.hyps(2) by simp
    show "k + 1 \<le> n" using lt by simp
    show "64 \<le> length (shared_key_of oracles n)" by (rule Suc.prems(2))
    show "\<forall>m. k + 1 \<le> m \<and> m < n \<longrightarrow> length (shared_key_of oracles m) < 64"
      using Suc.prems(3) by simp
  qed
  with short show ?case by (subst loop_unfold) simp
qed

text \<open>
  C7 (amended): the key generation loop has no bound on its retries and no error exit. It
  returns exactly when some attempt supplies at least 64 matching trials, with the shared
  key of the first such attempt, and it does not return when every attempt is undersupplied.
\<close>

theorem key_generation_loop_unbounded:
  "key_generation_loop oracles k =
     (if \<exists>n\<ge>k. 64 \<le> length (shared_key_of oracles n)
      then Some (shared_key_of oracles
                   (LEAST n. k \<le> n \<and> 64 \<le> length (shared_key_of oracles n)))
      else None)"
proof (cases "\<exists>n\<ge>k. 64 \<le> length (shared_key_of oracles n)")
  case True
  define P where "P = (\<lambda>n. k \<le> n \<and> 64 \<le> length (shared_key_of oracles n))"
  from True have ex: "\<exists>n. P n" by (auto simp add: P_def)
  then have l: "P (Least P)" by (rule LeastI_ex)
  have "\<forall>m. k \<le> m \<and> m < Least P \<longrightarrow> length (shared_key_of oracles m) < 64"
  proof (intro allI impI)
    fix m assume m: "k \<le> m \<and> m < Least P"
    then have "\<not> P m" using not_less_Least by blast
    with m show "length (shared_key_of oracles m) < 64" by (simp add: P_def)
  qed
  with l have "key_generation_loop oracles k = Some (shared_key_of oracles (Least P))"
    by (intro loop_first_supplied) (simp_all add: P_def)
  with True show ?thesis unfolding P_def by simp
next
  case False
  have "key_generation_loop oracles k = None"
  proof (cases "key_generation_loop oracles k")
    case None
    then show ?thesis .
  next
    case (Some y)
    from loop_Some_supplied [OF this] False show ?thesis by blast
  qed
  with False show ?thesis by simp
qed

lemma matching_from_fun:
  "matching_from m n = (\<lambda>i. if n < m then (0, 1, 0, 0) else (0, 0, 1, 1))"
  by (rule ext) (simp add: matching_from_def)

lemma shared_key_of_matching_from:
  "shared_key_of (matching_from m) n = (if n < m then [] else replicate 128 1)"
proof -
  have mn: "map ((!) xs) [0..<128] = xs" if "length xs = 128" for xs :: "nat list"
    using map_nth [of xs] that by simp
  show ?thesis
    by (simp add: shared_key_of_def quantum_key_distribution_def matching_from_fun
      np_random_randint_def Let_def filter_empty_conv map_replicate_const mn)
qed

theorem key_generation_loop_unbounded_witness:
  "key_generation_loop (matching_from 2) 0 = Some (replicate 128 1) \<and>
   establish_shared_key (matching_from 2) = Some (replicate 64 1)"
proof -
  have l: "(LEAST n. 0 \<le> n \<and> 64 \<le> length (shared_key_of (matching_from 2) n)) = 2"
    by (rule Least_equality) (auto simp add: shared_key_of_matching_from split: if_splits)
  have e: "\<exists>n\<ge>0. 64 \<le> length (shared_key_of (matching_from 2) n)"
    by (rule exI [of _ 2]) (simp add: shared_key_of_matching_from)
  have "key_generation_loop (matching_from 2) 0 = Some (shared_key_of (matching_from 2) 2)"
    using key_generation_loop_unbounded [of "matching_from 2" 0] unfolding l if_P [OF e] .
  then have k: "key_generation_loop (matching_from 2) 0 = Some (replicate 128 1)"
    by (simp add: shared_key_of_matching_from)
  have "take 64 (replicate 128 (1::nat)) = replicate 64 1"
    by (simp only: take_replicate) simp
  with k show ?thesis
    by (simp only: establish_shared_key_def option.map simp_thms)
qed

lemma shared_key_of_never_matching: "shared_key_of never_matching n = []"
  by (simp add: shared_key_of_def quantum_key_distribution_def never_matching_def
      np_random_randint_def Let_def filter_empty_conv)

text \<open>
  The claim as stated fails: when the bases never match, the loop retries for ever and no
  condition reaches the caller.
\<close>

theorem key_generation_loop_counterexample:
  "key_generation_loop never_matching 0 = None \<and> establish_shared_key never_matching = None"
  using key_generation_loop_unbounded [of never_matching 0]
  by (simp add: shared_key_of_never_matching establish_shared_key_def)

subsection \<open>The session cache\<close>

lemma measure_loop_length:
  "measure_loop sim is key = Inr k \<Longrightarrow> length k = length key + length is"
  by (induction "is" arbitrary: key) (auto split: option.splits)

lemma generate_quantum_key_length:
  "generate_quantum_key sim n = Inr k \<Longrightarrow> length k = n"
  unfolding generate_quantum_key_def by (drule measure_loop_length) simp

lemma overwrite_loop_length:
  "length (snd (overwrite_loop current_key eve_attempt_key ps)) = length eve_attempt_key"
  by (induction ps arbitrary: eve_attempt_key) simp_all

lemma invariant_cache_set:
  "key_length_invariant keys \<Longrightarrow> length v = 64 \<Longrightarrow> key_length_invariant (cache_set keys r v)"
  by (simp add: key_length_invariant_def cache_set_def)

lemma invariant_truthy:
  "key_length_invariant keys \<Longrightarrow> truthy (cache_get keys r) \<Longrightarrow>
   length (the (cache_get keys r)) = 64"
  unfolding key_length_invariant_def cache_get_def
  by (cases "keys r") (auto dest: spec [of _ r])

lemma invariant_init: "key_length_invariant cache_init"
  by (simp add: key_length_invariant_def cache_init_def)

lemma init_keys_invariant:
  assumes "key_length_invariant keys"
  shows "key_length_invariant (snd (init_keys is_options rnd keys))"
  using assms
  by (auto simp add: init_keys_def Let_def invariant_cache_set generate_quantum_key_length
      split: sum.splits)

lemma regenerate_invariant:
  assumes "key_length_invariant keys"
  shows "key_length_invariant (snd (regenerate rnd log_line matches eve_attempt_key keys))"
  using assms
  by (auto simp add: regenerate_def invariant_cache_set generate_quantum_key_length
      split: sum.splits)

lemma eve_attack_invariant:
  assumes inv: "key_length_invariant keys"
  shows "key_length_invariant (snd (eve_attack rnd key_type_field keys))"
proof (cases key_type_field)
  case None
  then show ?thesis using inv by (simp add: eve_attack_def)
next
  case (Some key_type)
  define attempt where "attempt = draw_attempt_key rnd"
  have la: "length attempt = 64" by (simp add: attempt_def draw_attempt_key_def)
  have eve0: "key_length_invariant (cache_set keys ''eve'' attempt)"
    using inv la by (rule invariant_cache_set)
  show ?thesis
  proof (cases "key_type \<in> set [''classic'', ''quantum''] \<and>
      truthy (cache_get keys key_type) \<and> truthy (cache_get keys ''eve'')")
    case False
    then show ?thesis using inv Some by (auto simp add: eve_attack_def Let_def)
  next
    case True
    then have lk: "length (the (cache_get keys key_type)) = 64"
      using invariant_truthy [OF inv] by blast
    show ?thesis
    proof (cases "key_type = ''classic''")
      case classic: True
      define positions where "positions = draw_positions rnd"
      obtain err guess where
        ov: "overwrite_loop (the (cache_get keys ''classic'')) attempt positions = (err, guess)"
        by (cases "overwrite_loop (the (cache_get keys ''classic'')) attempt positions")
      have lg: "length guess = 64"
        using overwrite_loop_length [of "the (cache_get keys ''classic'')" attempt positions] ov la
        by simp
      have g: "key_length_invariant (cache_set keys ''eve'' guess)"
        using inv lg by (rule invariant_cache_set)
      have c: "key_length_invariant
                 (cache_set (cache_set keys ''eve'' guess) ''eve'' (the (cache_get keys ''classic'')))"
        using invariant_cache_set [OF g] lk classic by simp
      show ?thesis
        unfolding eve_attack_def Let_def attempt_def [symmetric] positions_def [symmetric]
        using True Some classic ov g c
        by (cases err) simp_all
    next
      case quantum: False
      show ?thesis
        unfolding eve_attack_def Let_def attempt_def [symmetric]
        using True Some quantum regenerate_invariant [OF eve0] eve0
        by auto
    qed
  qed
qed

lemma encrypt_keeps_cache: "snd (encrypt E message_field key_type_field keys) = keys"
  by (simp add: encrypt_def Let_def split: option.splits sum.splits)

lemma decrypt_keeps_cache: "snd (decrypt D encrypted_msg_field key_type_field keys) = keys"
  by (simp add: decrypt_def Let_def split: option.splits sum.splits)

lemma step_invariant:
  "key_length_invariant keys \<Longrightarrow> key_length_invariant (step E D keys operation)"
  by (cases operation)
     (simp_all add: init_keys_invariant eve_attack_invariant encrypt_keeps_cache
        decrypt_keeps_cache cache_clear_def invariant_init)

lemma foldl_step_invariant:
  "key_length_invariant keys \<Longrightarrow> key_length_invariant (foldl (step E D) keys ops)"
  by (induction ops arbitrary: keys) (simp_all add: step_invariant)

text \<open>
  C10: after any sequence of the operations \<open>init_keys\<close>, \<open>eve_attack\<close>, \<open>encrypt\<close>,
  \<open>decrypt\<close> and \<open>clear\<close> from the initial state, every role's entry in the cache is
  either None or a sequence of exactly 64 bits.
\<close>

theorem session_cache_key_length_invariant:
  "key_length_invariant (run E D ops)"
  unfolding run_def by (rule foldl_step_invariant) (rule invariant_init)

end
